theory Spec2Isabelle
  imports Main "HOL-Library.Word"
begin

unbundle bit_operations_syntax

section \<open>The control-packet reader of \<^verbatim>\<open>src/common/SocketIo.h\<close>\<close>























section \<open>The backend process of \<^verbatim>\<open>src/backend/wslbridge-backend.cc\<close>\<close>

subsection \<open>Data\<close>

text \<open>
  Values that come from outside (the command line, the wire, \<^verbatim>\<open>waitpid\<close>) are 32-bit
  words, read as signed integers where the program reads an \<^verbatim>\<open>int32_t\<close>. The counters
  the program computes with are integers, and every arithmetic step on an \<^verbatim>\<open>int32_t\<close>
  wraps through \<open>int32\<close>; the conversion to \<^verbatim>\<open>size_t\<close> in line 124 is \<open>size_t\<close>.
  The credit invariant below shows that no step of a session overflows, so the wrap is
  never taken.
\<close>

type_synonym int32_t = "32 word"

definition int32 :: "int \<Rightarrow> int" where
  "int32 x = signed_take_bit 31 x"

definition size_t :: "int \<Rightarrow> int" where
  "size_t x = x mod 2 ^ 64"

record TermSize =
  cols :: "16 word"
  rows :: "16 word"

text \<open>\<^verbatim>\<open>struct WindowParams\<close>; its field \<^verbatim>\<open>size\<close> is \<open>size'\<close> here.\<close>

record WindowParams =
  size' :: int32_t
  threshold :: int32_t

text \<open>
  \<^verbatim>\<open>struct Packet\<close>: the type tag as it arrives (any 32-bit value; the enumerators are
  0, 1 and 2) and the four bytes of the union. \<^verbatim>\<open>windowAmount\<close> and \<^verbatim>\<open>exitStatus\<close> read
  them as an \<^verbatim>\<open>int32_t\<close>; \<^verbatim>\<open>termSize\<close> reads two 16-bit halves (the low half first, as
  on the little-endian hosts the bridge runs on).
\<close>

record Packet =
  ptype :: int32_t
  u :: "32 word"

definition SetSize :: int32_t where "SetSize = 0"
definition IncreaseWindow :: int32_t where "IncreaseWindow = 1"
definition ChildExitStatus :: int32_t where "ChildExitStatus = 2"

definition windowAmount :: "Packet \<Rightarrow> int" where
  "windowAmount p = sint (u p)"

definition exitStatus :: "Packet \<Rightarrow> int" where
  "exitStatus p = sint (u p)"

definition termSize :: "Packet \<Rightarrow> TermSize" where
  "termSize p = \<lparr>cols = ucast (u p), rows = ucast (drop_bit 16 (u p))\<rparr>"

subsection \<open>Threads\<close>

text \<open>
  The process runs four threads over one \<^verbatim>\<open>IoLoop\<close>. Each thread is a program counter
  with the thread's local variables; a step of the process is a step of one thread.

  \<^verbatim>\<open>ptyToSocketThread\<close> (lines 103-136): \<open>WTop\<close> is line 117, \<open>WFold\<close> the unlocked
  \<^verbatim>\<open>hasWindow()\<close> of line 118, \<open>WLock\<close> line 119, \<open>WPred\<close> the predicate of the wait in
  line 120 (the mutex held), \<open>WWaiting\<close> the wait itself (the mutex released),
  \<open>WRead\<close> line 122, \<open>WWrite amt1\<close> line 131, \<open>WDec amt1\<close> line 134, \<open>WDone\<close> the
  return after line 129.
\<close>

datatype p2s_pc = WTop | WFold | WLock | WPred | WWaiting | WRead | WWrite int | WDec int | WDone

text \<open>
  The control reader, in \<^verbatim>\<open>handlePacket\<close> (lines 138-167): \<open>RRead\<close> is the reader's loop
  outside the handler, \<open>RLock iw\<close> line 155, \<open>RAdd iw\<close> line 156, \<open>RUnlock\<close> the end of
  the block in line 157, \<open>RNotify\<close> line 158. \<open>RDone\<close> stands for the thread function
  having returned; no step leads there, since the loop of SocketIo.h has no exit.
\<close>

datatype rcs_pc = RRead | RLock int | RAdd int | RUnlock | RNotify | RDone

text \<open>\<^verbatim>\<open>socketToPtyThread\<close> (lines 88-101): line 91, line 99, returned.\<close>

datatype s2p_pc = TRead | TWrite int | TDone

text \<open>
  \<^verbatim>\<open>mainLoop\<close> (lines 169-203): line 183, line 196 with the packet of lines 194-195,
  and the three joins of lines 200-202.
\<close>

datatype sup_pc = SWaitpid | SWritePacket Packet | SJoin_s2p | SJoin_p2s | SJoin_rcs

datatype thread_id = P2S | RCS

text \<open>
  How the process stands: running, ended by \<^verbatim>\<open>exit\<close> or by the return of \<^verbatim>\<open>main\<close> with
  a code, or aborted by a failed \<^verbatim>\<open>assert\<close> (lines 217-219, 117, 111, 153). The
  assertions are compiled in: the program checks its arguments with them.
\<close>

datatype assertion = Assert_params | Assert_loop | Assert_fold | Assert_increase

datatype status = Running | Exited int | Aborted assertion

text \<open>
  The state of the process. \<open>windowMutex\<close>, \<open>window\<close> and \<open>windowParams\<close> are the fields
  of \<^verbatim>\<open>struct IoLoop\<close> (the mutex by its holder); \<open>locWindow\<close> is the local of
  \<^verbatim>\<open>ptyToSocketThread\<close>. The last seven fields record what the process has done to the
  outside: the lines printed to standard error, the number of bytes written to the data
  socket, whether line 128 has shut it down, for every read of the pty the count it
  asked for and \<open>locWindow\<close> at that moment, the \<^verbatim>\<open>windowAmount\<close> of every
  \<^verbatim>\<open>IncreaseWindow\<close> packet handed to the handler, the holder of the mutex at every
  \<^verbatim>\<open>notify_one\<close>, the sizes set on the pty, the status \<^verbatim>\<open>waitpid\<close> stored, and every
  \<^verbatim>\<open>writePacket\<close> on the control socket with its success.
\<close>

record process =
  windowMutex :: "thread_id option"
  window :: int
  windowParams :: WindowParams
  locWindow :: int
  p2s :: p2s_pc
  rcs :: rcs_pc
  s2p :: s2p_pc
  sup :: sup_pc
  status :: status
  stderr :: "string list"
  dataSent :: int
  dataShutdown :: bool
  ptyReads :: "(int \<times> int) list"
  deltas :: "int list"
  notifies :: "thread_id option list"
  winsizes :: "TermSize list"
  waitStatus :: "int32_t option"
  controlOut :: "(Packet \<times> bool) list"

definition windowSize :: "process \<Rightarrow> int" where
  "windowSize s = sint (size' (windowParams s))"

definition windowThreshold :: "process \<Rightarrow> int" where
  "windowThreshold s = sint (threshold (windowParams s))"

definition newline :: string where
  "newline = [CHR 0x0A]"

text \<open>Lines 76-79.\<close>

definition connection_broken :: string where
  "connection_broken = ''error: connection broken'' @ newline"

definition connectionBrokenAbort :: "process \<Rightarrow> process" where
  "connectionBrokenAbort s = s\<lparr>stderr := stderr s @ [connection_broken], status := Exited 1\<rparr>"

text \<open>
  The lambda \<^verbatim>\<open>hasWindow\<close> (lines 108-115) with \<^verbatim>\<open>readAtomic = true\<close>: the exchange, the
  assertion, the addition, and the comparison it returns.
\<close>

definition hasWindow :: "process \<Rightarrow> process \<times> bool" where
  "hasWindow s =
     (let iw = window s;
          s1 = s\<lparr>window := 0\<rparr>
      in if \<not> iw \<le> int32 (windowSize s - locWindow s)
         then (s1\<lparr>status := Aborted Assert_fold\<rparr>, False)
         else
           let s2 = s1\<lparr>locWindow := int32 (locWindow s + iw)\<rparr>
           in (s2, windowThreshold s \<le> locWindow s2))"

text \<open>
  The steps \<^verbatim>\<open>ptyToSocketThread\<close> takes by itself. A thread that waits for the mutex
  stays where it is while another holds it. The wait of line 120 may end at any time
  (a notification or a spurious wake-up), when the mutex is free.
\<close>

definition p2s_step :: "process \<Rightarrow> process" where
  "p2s_step s =
     (case p2s s of
        WTop \<Rightarrow>
          if \<not> (locWindow s \<ge> 0 \<and> locWindow s \<le> windowSize s)
          then s\<lparr>status := Aborted Assert_loop\<rparr>
          else if locWindow s \<ge> windowThreshold s then s\<lparr>p2s := WRead\<rparr>
          else s\<lparr>p2s := WFold\<rparr>
      | WFold \<Rightarrow>
          (case hasWindow s of (s', ok) \<Rightarrow>
             if status s' \<noteq> Running then s'
             else if ok then s'\<lparr>p2s := WRead\<rparr>
             else s'\<lparr>p2s := WLock\<rparr>)
      | WLock \<Rightarrow>
          if windowMutex s = None then s\<lparr>windowMutex := Some P2S, p2s := WPred\<rparr> else s
      | WPred \<Rightarrow>
          (case hasWindow s of (s', ok) \<Rightarrow>
             if status s' \<noteq> Running then s'
             else if ok then s'\<lparr>windowMutex := None, p2s := WRead\<rparr>
             else s'\<lparr>windowMutex := None, p2s := WWaiting\<rparr>)
      | WWaiting \<Rightarrow>
          if windowMutex s = None then s\<lparr>windowMutex := Some P2S, p2s := WPred\<rparr> else s
      | WDec amt1 \<Rightarrow> s\<lparr>locWindow := int32 (locWindow s - amt1), p2s := WTop\<rparr>
      | _ \<Rightarrow> s)"

text \<open>
  Lines 122-130: the read of the pty, which has \<open>k\<close> bytes ready (\<open>k \<le> 0\<close> is the value
  a failing read returns). The read returns at most the count it was given.
\<close>

definition pty_read_count :: "process \<Rightarrow> int" where
  "pty_read_count s = min (32 * 1024) (size_t (locWindow s))"

definition p2s_read :: "int \<Rightarrow> process \<Rightarrow> process" where
  "p2s_read k s =
     (case p2s s of
        WRead \<Rightarrow>
          let s1 = s\<lparr>ptyReads := ptyReads s @ [(pty_read_count s, locWindow s)]\<rparr>;
              amt1 = (if k \<le> 0 then k else min k (pty_read_count s))
          in if amt1 \<le> 0 then s1\<lparr>dataShutdown := True, p2s := WDone\<rparr>
             else s1\<lparr>p2s := WWrite amt1\<rparr>
      | _ \<Rightarrow> s)"

text \<open>
  Lines 131-133: \<^verbatim>\<open>writeAllRestarting\<close> on the data socket, which takes \<open>k\<close> bytes
  before it stops; it succeeds when those are all \<open>amt1\<close>.
\<close>

definition p2s_write :: "nat \<Rightarrow> process \<Rightarrow> process" where
  "p2s_write k s =
     (case p2s s of
        WWrite amt1 \<Rightarrow>
          if amt1 \<le> int k then s\<lparr>dataSent := dataSent s + amt1, p2s := WDec amt1\<rparr>
          else connectionBrokenAbort (s\<lparr>dataSent := dataSent s + int k\<rparr>)
      | _ \<Rightarrow> s)"

text \<open>The decimal digits \<^verbatim>\<open>%d\<close> prints.\<close>

function decimal :: "nat \<Rightarrow> string" where
  "decimal n = (if n < 10 then [''0123456789'' ! n] else decimal (n div 10) @ [''0123456789'' ! (n mod 10)])"
  by pat_completeness auto
termination
  by (relation "measure (\<lambda>n. n)") auto

declare decimal.simps [simp del]

definition printf_d :: "int \<Rightarrow> string" where
  "printf_d i = (if i < 0 then CHR ''-'' # decimal (nat (- i)) else decimal (nat i))"

definition unexpected_packet :: "int \<Rightarrow> string" where
  "unexpected_packet t = ''internal error: unexpected packet '' @ printf_d t @ newline"

text \<open>
  \<^verbatim>\<open>handlePacket\<close> (lines 138-167), up to the point where it waits for the mutex. The
  \<^verbatim>\<open>ioctl\<close> of line 144 is recorded; its result is ignored by the program.
\<close>

definition handlePacket :: "process \<Rightarrow> Packet \<Rightarrow> process" where
  "handlePacket s p =
     (if ptype p = SetSize then s\<lparr>winsizes := winsizes s @ [termSize p]\<rparr>
      else if ptype p = IncreaseWindow then
        let max = windowSize s;
            cw = window s;
            iw = windowAmount p;
            s1 = s\<lparr>deltas := deltas s @ [iw]\<rparr>
        in if \<not> (cw \<ge> 0 \<and> cw \<le> max \<and> iw \<ge> 0 \<and> iw \<le> int32 (max - cw))
           then s1\<lparr>status := Aborted Assert_increase\<rparr>
           else s1\<lparr>rcs := RLock iw\<rparr>
      else
        s\<lparr>stderr := stderr s @ [unexpected_packet (sint (ptype p))], status := Exited 1\<rparr>)"

text \<open>The reader hands the next whole packet to the handler when it is in its loop.\<close>

definition rcs_packet :: "Packet \<Rightarrow> process \<Rightarrow> process" where
  "rcs_packet p s = (case rcs s of RRead \<Rightarrow> handlePacket s p | _ \<Rightarrow> s)"

text \<open>SocketIo.h, lines 78-80: the read of the control socket fails.\<close>

definition rcs_read_failure :: "process \<Rightarrow> process" where
  "rcs_read_failure s = (case rcs s of RRead \<Rightarrow> connectionBrokenAbort s | _ \<Rightarrow> s)"

text \<open>Lines 155-159: the lock, the addition, the end of the lock's block, the notification.\<close>

definition rcs_step :: "process \<Rightarrow> process" where
  "rcs_step s =
     (case rcs s of
        RLock iw \<Rightarrow>
          if windowMutex s = None then s\<lparr>windowMutex := Some RCS, rcs := RAdd iw\<rparr> else s
      | RAdd iw \<Rightarrow> s\<lparr>window := int32 (window s + iw), rcs := RUnlock\<rparr>
      | RUnlock \<Rightarrow> s\<lparr>windowMutex := None, rcs := RNotify\<rparr>
      | RNotify \<Rightarrow> s\<lparr>notifies := notifies s @ [windowMutex s], rcs := RRead\<rparr>
      | _ \<Rightarrow> s)"

text \<open>Lines 91-96 and line 99, whose result the program ignores.\<close>

definition s2p_read :: "int \<Rightarrow> process \<Rightarrow> process" where
  "s2p_read k s =
     (case s2p s of
        TRead \<Rightarrow> (let amt1 = (if k \<le> 0 then k else min k 8192)
                  in if amt1 \<le> 0 then s\<lparr>s2p := TDone\<rparr> else s\<lparr>s2p := TWrite amt1\<rparr>)
      | _ \<Rightarrow> s)"

definition s2p_write :: "bool \<Rightarrow> process \<Rightarrow> process" where
  "s2p_write ok s = (case s2p s of TWrite amt1 \<Rightarrow> s\<lparr>s2p := TRead\<rparr> | _ \<Rightarrow> s)"

text \<open>
  Modelled from the spec: \<^verbatim>\<open>WIFEXITED\<close> and \<^verbatim>\<open>WEXITSTATUS\<close> are macros of the system's
  \<^verbatim>\<open>sys/wait.h\<close>, not of the repository. Section 4.8 of the specification: a normal exit
  produces the low 8 bits of the exit code, any abnormal termination is a signal. The
  definitions are the ones of the C library the backend is built with: a status whose
  low seven bits are zero is a normal exit, and its exit code is the second byte.
\<close>

definition WIFEXITED :: "int32_t \<Rightarrow> bool" where
  "WIFEXITED st = (st AND 0x7f = 0)"

definition WEXITSTATUS :: "int32_t \<Rightarrow> int32_t" where
  "WEXITSTATUS st = drop_bit 8 (st AND 0xff00)"

text \<open>Lines 187-195: the packet \<^verbatim>\<open>mainLoop\<close> builds from the status \<^verbatim>\<open>waitpid\<close> stored.\<close>

definition exit_packet :: "int32_t \<Rightarrow> Packet" where
  "exit_packet st =
     (let exitStatus = (if WIFEXITED st then WEXITSTATUS st else 1)
      in \<lparr>ptype = ChildExitStatus, u = exitStatus\<rparr>)"

text \<open>
  Lines 183-195: \<^verbatim>\<open>waitpid\<close> returns; \<open>Inl msg\<close> is a failure, with the text \<^verbatim>\<open>perror\<close>
  prints for \<^verbatim>\<open>errno\<close>, \<open>Inr st\<close> the status of the child.
\<close>

definition waitpid_failed :: "string \<Rightarrow> string" where
  "waitpid_failed msg = ''waitpid failed: '' @ msg @ newline"

definition sup_waitpid :: "string + int32_t \<Rightarrow> process \<Rightarrow> process" where
  "sup_waitpid r s =
     (case sup s of
        SWaitpid \<Rightarrow>
          (case r of
             Inl msg \<Rightarrow> s\<lparr>stderr := stderr s @ [waitpid_failed msg], status := Exited 1\<rparr>
           | Inr st \<Rightarrow> s\<lparr>waitStatus := Some st, sup := SWritePacket (exit_packet st)\<rparr>)
      | _ \<Rightarrow> s)"

text \<open>Line 196, \<^verbatim>\<open>writePacket\<close> (lines 81-86): the write succeeds or fails.\<close>

definition writePacket :: "bool \<Rightarrow> process \<Rightarrow> Packet \<Rightarrow> process" where
  "writePacket ok s p =
     (let s1 = s\<lparr>controlOut := controlOut s @ [(p, ok)]\<rparr>
      in if \<not> ok then connectionBrokenAbort s1 else s1)"

definition sup_write :: "bool \<Rightarrow> process \<Rightarrow> process" where
  "sup_write ok s =
     (case sup s of
        SWritePacket p \<Rightarrow>
          (let s1 = writePacket ok s p
           in if status s1 \<noteq> Running then s1 else s1\<lparr>sup := SJoin_s2p\<rparr>)
      | _ \<Rightarrow> s)"

text \<open>
  Lines 200-202 and 226-228: a join returns when its thread has returned; after the
  last one \<^verbatim>\<open>mainLoop\<close> returns and \<^verbatim>\<open>main\<close> returns 0.
\<close>

definition sup_step :: "process \<Rightarrow> process" where
  "sup_step s =
     (case sup s of
        SJoin_s2p \<Rightarrow> if s2p s = TDone then s\<lparr>sup := SJoin_p2s\<rparr> else s
      | SJoin_p2s \<Rightarrow> if p2s s = WDone then s\<lparr>sup := SJoin_rcs\<rparr> else s
      | SJoin_rcs \<Rightarrow> if rcs s = RDone then s\<lparr>status := Exited 0\<rparr> else s
      | _ \<Rightarrow> s)"

subsection \<open>The process\<close>

text \<open>
  What happens next: a thread moves on, or the outside answers a call a thread has
  made. An event that does not fit the place its thread is at leaves the state as it
  is, and so does every event once the process has ended.
\<close>

datatype event =
    P2S_step
  | P2S_read int
  | P2S_write nat
  | RCS_packet Packet
  | RCS_read_failure
  | RCS_step
  | S2P_read int
  | S2P_write bool
  | SUP_waitpid "string + int32_t"
  | SUP_write bool
  | SUP_step

definition step :: "process \<Rightarrow> event \<Rightarrow> process" where
  "step s e =
     (if status s \<noteq> Running then s
      else case e of
        P2S_step \<Rightarrow> p2s_step s
      | P2S_read k \<Rightarrow> p2s_read k s
      | P2S_write k \<Rightarrow> p2s_write k s
      | RCS_packet p \<Rightarrow> rcs_packet p s
      | RCS_read_failure \<Rightarrow> rcs_read_failure s
      | RCS_step \<Rightarrow> rcs_step s
      | S2P_read k \<Rightarrow> s2p_read k s
      | S2P_write ok \<Rightarrow> s2p_write ok s
      | SUP_waitpid r \<Rightarrow> sup_waitpid r s
      | SUP_write ok \<Rightarrow> sup_write ok s
      | SUP_step \<Rightarrow> sup_step s)"

fun exec :: "process \<Rightarrow> event list \<Rightarrow> process" where
  "exec s [] = s"
| "exec s (e # es) = exec (step s e) es"

text \<open>
  \<^verbatim>\<open>main\<close> (lines 207-229) from line 216 on, with the sockets connected and the child
  spawned: the assertions on the window parameters, then \<^verbatim>\<open>mainLoop\<close> with its three
  threads started.
\<close>

definition main :: "WindowParams \<Rightarrow> process" where
  "main wp =
     (let s = \<lparr>windowMutex = None, window = 0, windowParams = wp, locWindow = sint (size' wp),
               p2s = WTop, rcs = RRead, s2p = TRead, sup = SWaitpid, status = Running,
               stderr = [], dataSent = 0, dataShutdown = False, ptyReads = [], deltas = [],
               notifies = [], winsizes = [], waitStatus = None, controlOut = []\<rparr>
      in if \<not> (sint (size' wp) \<ge> 1 \<and> sint (threshold wp) \<ge> 1
                \<and> sint (threshold wp) \<le> sint (size' wp))
         then s\<lparr>status := Aborted Assert_params\<rparr>
         else s)"

definition session :: "WindowParams \<Rightarrow> event list \<Rightarrow> process" where
  "session wp es = exec (main wp) es"


subsection \<open>The outside\<close>

text \<open>
  Modelled from the spec: how the operating system encodes the end of a child in the
  status \<^verbatim>\<open>waitpid\<close> stores is not code of the repository. Section 4.8 of the
  specification tells a normal exit, with an exit code, from an abnormal termination
  by a signal. The encoding is the one the macros above decode: the low 8 bits of the
  exit code in the second byte, or the signal number in the low seven bits, with bit 7
  set when a core was dumped.
\<close>

datatype child_end = Exit int32_t | Killed nat bool

fun wait_status :: "child_end \<Rightarrow> int32_t" where
  "wait_status (Exit code) = push_bit 8 (code AND 0xff)"
| "wait_status (Killed sig core) = of_nat sig OR (if core then 0x80 else 0)"

text \<open>
  The frontend keeps to the protocol when every credit it returns is non-negative and
  its credits together never exceed the bytes the backend has written to the data
  socket by then.
\<close>

definition honest_event :: "process \<Rightarrow> event \<Rightarrow> bool" where
  "honest_event s e =
     (case e of
        RCS_packet p \<Rightarrow>
          ptype p \<noteq> IncreaseWindow
          \<or> (0 \<le> windowAmount p \<and> sum_list (deltas s) + windowAmount p \<le> dataSent s)
      | _ \<Rightarrow> True)"

fun frontend_honest :: "process \<Rightarrow> event list \<Rightarrow> bool" where
  "frontend_honest s [] = True"
| "frontend_honest s (e # es) = (honest_event s e \<and> frontend_honest (step s e) es)"

text \<open>The three diagnostics the process prints before \<^verbatim>\<open>exit(1)\<close> (lines 77, 162, 184).\<close>

definition fatal_diagnostic :: "string \<Rightarrow> bool" where
  "fatal_diagnostic m =
     (m = connection_broken
      \<or> (\<exists>t. m = unexpected_packet t)
      \<or> (\<exists>msg. m = waitpid_failed msg))"

subsection \<open>Invariants\<close>

text \<open>The assertions of lines 217-219.\<close>

definition valid_params :: "WindowParams \<Rightarrow> bool" where
  "valid_params wp = (sint (size' wp) \<ge> 1 \<and> sint (threshold wp) \<ge> 1
                \<and> sint (threshold wp) \<le> sint (size' wp))"

text \<open>
  Bytes written to the data socket and not yet taken off \<open>locWindow\<close> (between lines
  131 and 134), and a credit the handler has accepted and not yet added to \<open>window\<close>
  (between lines 153 and 156).
\<close>

fun held :: "p2s_pc \<Rightarrow> int" where
  "held (WDec a) = a"
| "held _ = 0"

fun pending :: "rcs_pc \<Rightarrow> int" where
  "pending (RLock iw) = iw"
| "pending (RAdd iw) = iw"
| "pending _ = 0"

text \<open>What \<^verbatim>\<open>ptyToSocketThread\<close> knows of its credit \<open>l\<close> at each place (\<open>t\<close> is the threshold).\<close>

fun p2s_ok :: "p2s_pc \<Rightarrow> int \<Rightarrow> int \<Rightarrow> bool" where
  "p2s_ok WRead l t = (t \<le> l)"
| "p2s_ok (WWrite a) l t = (0 < a \<and> a \<le> l)"
| "p2s_ok (WDec a) l t = (0 < a \<and> a \<le> l)"
| "p2s_ok _ l t = True"

definition credit_inv :: "process \<Rightarrow> bool" where
  "credit_inv s =
     (valid_params (windowParams s)
      \<and> 0 \<le> window s \<and> window s \<le> windowSize s
      \<and> 0 \<le> locWindow s \<and> locWindow s \<le> windowSize s
      \<and> p2s_ok (p2s s) (locWindow s) (windowThreshold s)
      \<and> 0 \<le> pending (rcs s) \<and> window s + pending (rcs s) \<le> windowSize s
      \<and> ((\<forall>d\<in>set (deltas s). 0 \<le> d) \<longrightarrow>
            dataSent s + window s + pending (rcs s) \<le> windowSize s + sum_list (deltas s))
      \<and> (status s = Running \<longrightarrow>
            (\<forall>d\<in>set (deltas s). 0 \<le> d)
            \<and> dataSent s + (locWindow s - held (p2s s)) + window s + pending (rcs s)
                = windowSize s + sum_list (deltas s))
      \<and> (\<forall>(c, l)\<in>set (ptyReads s). windowThreshold s \<le> l \<and> c = min (32 * 1024) l \<and> 1 \<le> c))"

definition honest_inv :: "process \<Rightarrow> bool" where
  "honest_inv s = (credit_inv s \<and> sum_list (deltas s) \<le> dataSent s \<and> (\<forall>a. status s \<noteq> Aborted a))"

text \<open>The places of the handler at which the reader holds the mutex.\<close>

fun rcs_holds :: "rcs_pc \<Rightarrow> bool" where
  "rcs_holds (RAdd iw) = True"
| "rcs_holds RUnlock = True"
| "rcs_holds _ = False"

definition mutex_inv :: "process \<Rightarrow> bool" where
  "mutex_inv s =
     ((windowMutex s = Some P2S) = (p2s s = WPred)
      \<and> (windowMutex s = Some RCS) = rcs_holds (rcs s)
      \<and> (\<forall>m\<in>set (notifies s). m \<noteq> Some RCS))"

definition exit_inv :: "process \<Rightarrow> bool" where
  "exit_inv s =
     (rcs s \<noteq> RDone
      \<and> (\<forall>c. status s = Exited c \<longrightarrow> c = 1 \<and> stderr s \<noteq> [] \<and> fatal_diagnostic (last (stderr s))))"

definition sup_inv :: "process \<Rightarrow> bool" where
  "sup_inv s =
     (case sup s of
        SWaitpid \<Rightarrow> waitStatus s = None \<and> controlOut s = []
      | SWritePacket p \<Rightarrow>
          (\<exists>st. waitStatus s = Some st \<and> p = exit_packet st)
          \<and> (controlOut s = [] \<or> (status s = Exited 1 \<and> controlOut s = [(p, False)]))
      | _ \<Rightarrow> (\<exists>st. waitStatus s = Some st \<and> controlOut s = [(exit_packet st, True)]))"

subsection \<open>Sample sessions\<close>

definition wp_demo :: WindowParams where
  "wp_demo = \<lparr>size' = 16, threshold = 8\<rparr>"

text \<open>
  Ten bytes go out, the frontend returns a credit of ten, the worker folds it in and
  sends sixteen more.
\<close>

definition credited_session :: "event list" where
  "credited_session =
     [P2S_step, P2S_read 10, P2S_write 10, P2S_step,
      RCS_packet \<lparr>ptype = 1, u = 10\<rparr>, RCS_step, RCS_step, RCS_step, RCS_step,
      P2S_step, P2S_step, P2S_read 40, P2S_write 16, P2S_step]"

text \<open>Ten bytes go out and the frontend returns a credit of sixteen.\<close>

definition overgranted_session :: "event list" where
  "overgranted_session =
     [P2S_step, P2S_read 10, P2S_write 10, P2S_step,
      RCS_packet \<lparr>ptype = 1, u = 16\<rparr>, RCS_step, RCS_step, RCS_step, RCS_step,
      P2S_step, P2S_step]"

text \<open>
  The worker runs out of credit and waits; a credit arrives, the reader notifies, the
  worker wakes and reads again.
\<close>

definition waiting_session :: "event list" where
  "waiting_session =
     [P2S_step, P2S_read 16, P2S_write 16, P2S_step, P2S_step, P2S_step, P2S_step, P2S_step,
      RCS_packet \<lparr>ptype = 1, u = 12\<rparr>, RCS_step, RCS_step, RCS_step, RCS_step,
      P2S_step, P2S_step, P2S_read 5]"

text \<open>
  The child exits with code 0, the exit packet is delivered, the pty and the data
  socket reach their end, and the frontend closes the control socket.
\<close>

definition clean_session :: "event list" where
  "clean_session =
     [SUP_waitpid (Inr 0), SUP_write True, P2S_step, P2S_read 0, S2P_read 0,
      SUP_step, SUP_step, SUP_step, RCS_read_failure]"

text \<open>The child is reaped and the control socket breaks before the exit packet is written.\<close>

definition broken_session :: "event list" where
  "broken_session = [SUP_waitpid (Inr 0), RCS_read_failure, SUP_write True]"

text \<open>The child is killed by signal 9 and the exit packet is delivered.\<close>

definition killed_session :: "event list" where
  "killed_session = [SUP_waitpid (Inr (wait_status (Killed 9 False))), SUP_write True]"

text \<open>A packet of type 255 arrives.\<close>

definition unknown_packet_session :: "event list" where
  "unknown_packet_session = [RCS_packet \<lparr>ptype = 255, u = 0\<rparr>]"


section \<open>The reader: lemmas\<close>














section \<open>The process: the credit invariant\<close>

lemma int32_id: "- 2147483648 \<le> x \<Longrightarrow> x < 2147483648 \<Longrightarrow> int32 x = x"
  by (simp add: int32_def signed_take_bit_int_eq_self)

lemma windowSize_lt: "windowSize s < 2147483648"
  using sint_lt [of "size' (windowParams s)"] by (simp add: windowSize_def)

lemma size_t_id: "0 \<le> x \<Longrightarrow> x < 2147483648 \<Longrightarrow> size_t x = x"
  by (simp add: size_t_def)

lemma valid_params_threshold:
  "valid_params (windowParams s) \<Longrightarrow> 1 \<le> windowThreshold s \<and> windowThreshold s \<le> windowSize s"
  by (simp add: valid_params_def windowSize_def windowThreshold_def)

lemma hasWindow_credit_inv:
  assumes "credit_inv s" "status s = Running" "p2s s = WFold \<or> p2s s = WPred" "hasWindow s = (s', ok)"
  shows "credit_inv s' \<and> (status s' = Running \<longrightarrow> ok = (windowThreshold s' \<le> locWindow s'))
    \<and> p2s s' = p2s s \<and> rcs s' = rcs s \<and> windowParams s' = windowParams s"
proof -
  have Z: "windowSize s < 2147483648" by (rule windowSize_lt)
  have r: "0 \<le> window s" "window s \<le> windowSize s" "0 \<le> locWindow s" "locWindow s \<le> windowSize s"
    using assms(1) by (simp_all add: credit_inv_def)
  have d: "int32 (windowSize s - locWindow s) = windowSize s - locWindow s"
    using Z r by (intro int32_id) simp_all
  show ?thesis
  proof (cases "window s \<le> windowSize s - locWindow s")
    case True
    have a: "int32 (locWindow s + window s) = locWindow s + window s"
      using Z r True by (intro int32_id) simp_all
    from True assms(4) d a have s': "s' = s\<lparr>window := 0, locWindow := locWindow s + window s\<rparr>"
      and ok: "ok = (windowThreshold s \<le> locWindow s + window s)"
      by (auto simp: hasWindow_def Let_def windowSize_def windowThreshold_def)
    show ?thesis
      using assms(1,2,3) True r unfolding s' ok
      by (auto simp: credit_inv_def windowSize_def windowThreshold_def)
  next
    case False
    with assms(4) d have s': "s' = s\<lparr>window := 0, status := Aborted Assert_fold\<rparr>"
      by (auto simp: hasWindow_def Let_def)
    show ?thesis
      using assms(1,2,3) r unfolding s'
      by (auto simp: credit_inv_def windowSize_def windowThreshold_def)
  qed
qed


lemma p2s_step_credit_inv:
  assumes "credit_inv s" "status s = Running"
  shows "credit_inv (p2s_step s)"
proof (cases "p2s s")
  case WTop
  with assms show ?thesis
    by (auto simp: p2s_step_def credit_inv_def windowSize_def windowThreshold_def)
next
  case WFold
  obtain s' ok where h: "hasWindow s = (s', ok)" by (cases "hasWindow s")
  from hasWindow_credit_inv [OF assms _ h] WFold
  have "credit_inv s'" "status s' = Running \<longrightarrow> ok = (windowThreshold s' \<le> locWindow s')"
    "p2s s' = WFold" by simp_all
  then show ?thesis
    using WFold h
    by (auto simp: p2s_step_def credit_inv_def windowSize_def windowThreshold_def)
next
  case WLock
  with assms show ?thesis
    by (auto simp: p2s_step_def credit_inv_def windowSize_def windowThreshold_def)
next
  case WPred
  obtain s' ok where h: "hasWindow s = (s', ok)" by (cases "hasWindow s")
  from hasWindow_credit_inv [OF assms _ h] WPred
  have "credit_inv s'" "status s' = Running \<longrightarrow> ok = (windowThreshold s' \<le> locWindow s')"
    "p2s s' = WPred" by simp_all
  then show ?thesis
    using WPred h
    by (auto simp: p2s_step_def credit_inv_def windowSize_def windowThreshold_def)
next
  case WWaiting
  with assms show ?thesis
    by (auto simp: p2s_step_def credit_inv_def windowSize_def windowThreshold_def)
next
  case WRead
  with assms show ?thesis by (simp add: p2s_step_def)
next
  case (WWrite a)
  with assms show ?thesis by (simp add: p2s_step_def)
next
  case (WDec a)
  have Z: "windowSize s < 2147483648" by (rule windowSize_lt)
  have r: "0 \<le> locWindow s" "locWindow s \<le> windowSize s" "0 < a" "a \<le> locWindow s"
    using assms(1) WDec by (simp_all add: credit_inv_def)
  have d: "int32 (locWindow s - a) = locWindow s - a"
    using Z r by (intro int32_id) simp_all
  show ?thesis
    using assms WDec r unfolding p2s_step_def
    by (auto simp: d credit_inv_def windowSize_def windowThreshold_def)
next
  case WDone
  with assms show ?thesis by (simp add: p2s_step_def)
qed

lemma p2s_read_credit_inv:
  assumes "credit_inv s" "status s = Running"
  shows "credit_inv (p2s_read k s)"
proof (cases "p2s s = WRead")
  case True
  have Z: "windowSize s < 2147483648" by (rule windowSize_lt)
  have r: "0 \<le> locWindow s" "locWindow s \<le> windowSize s" "windowThreshold s \<le> locWindow s"
    "1 \<le> windowThreshold s"
    using assms(1) True valid_params_threshold [of s] by (simp_all add: credit_inv_def)
  have c: "pty_read_count s = min (32 * 1024) (locWindow s)"
    using Z r by (simp add: pty_read_count_def size_t_id)
  show ?thesis
    using assms True r unfolding p2s_read_def c Let_def
    by (auto simp: credit_inv_def windowSize_def windowThreshold_def)
next
  case False
  then show ?thesis using assms by (cases "p2s s") (simp_all add: p2s_read_def)
qed

lemma p2s_write_credit_inv:
  assumes "credit_inv s" "status s = Running"
  shows "credit_inv (p2s_write k s)"
proof (cases "p2s s")
  case (WWrite a)
  with assms show ?thesis
    by (auto simp: p2s_write_def connectionBrokenAbort_def credit_inv_def windowSize_def
        windowThreshold_def)
qed (use assms in \<open>simp_all add: p2s_write_def\<close>)

lemma rcs_packet_credit_inv:
  assumes "credit_inv s" "status s = Running"
  shows "credit_inv (rcs_packet p s)"
proof (cases "rcs s = RRead")
  case True
  have Z: "windowSize s < 2147483648" by (rule windowSize_lt)
  have r: "0 \<le> window s" "window s \<le> windowSize s"
    using assms(1) by (simp_all add: credit_inv_def)
  have d: "int32 (windowSize s - window s) = windowSize s - window s"
    using Z r by (intro int32_id) simp_all
  show ?thesis
    using assms True r unfolding rcs_packet_def handlePacket_def Let_def d
    by (auto simp: credit_inv_def windowSize_def windowThreshold_def)
next
  case False
  then show ?thesis using assms by (cases "rcs s") (simp_all add: rcs_packet_def)
qed

lemma rcs_step_credit_inv:
  assumes "credit_inv s" "status s = Running"
  shows "credit_inv (rcs_step s)"
proof (cases "rcs s")
  case (RAdd iw)
  have Z: "windowSize s < 2147483648" by (rule windowSize_lt)
  have r: "0 \<le> window s" "0 \<le> iw" "window s + iw \<le> windowSize s"
    using assms(1) RAdd by (simp_all add: credit_inv_def)
  have d: "int32 (window s + iw) = window s + iw"
    using Z r by (intro int32_id) simp_all
  show ?thesis
    using assms RAdd r unfolding rcs_step_def
    by (auto simp: d credit_inv_def windowSize_def windowThreshold_def)
qed (use assms in \<open>auto simp: rcs_step_def credit_inv_def windowSize_def
        windowThreshold_def\<close>)

lemma other_credit_inv:
  assumes "credit_inv s"
  shows "credit_inv (rcs_read_failure s)" "credit_inv (s2p_read k s)" "credit_inv (s2p_write ok s)"
    "credit_inv (sup_waitpid r s)" "credit_inv (sup_write ok s)" "credit_inv (sup_step s)"
  using assms
  by (auto simp: rcs_read_failure_def s2p_read_def s2p_write_def sup_waitpid_def sup_write_def
      sup_step_def writePacket_def connectionBrokenAbort_def Let_def
      credit_inv_def windowSize_def windowThreshold_def
      split: rcs_pc.splits s2p_pc.splits sup_pc.splits sum.splits)

lemma step_credit_inv: "credit_inv s \<Longrightarrow> credit_inv (step s e)"
  by (cases e)
    (simp_all add: step_def p2s_step_credit_inv p2s_read_credit_inv p2s_write_credit_inv
      rcs_packet_credit_inv rcs_step_credit_inv other_credit_inv)

lemma exec_credit_inv: "credit_inv s \<Longrightarrow> credit_inv (exec s es)"
  by (induction es arbitrary: s) (simp_all add: step_credit_inv)

lemma main_credit_inv: "valid_params wp \<Longrightarrow> credit_inv (main wp)"
  by (simp add: main_def Let_def credit_inv_def valid_params_def windowSize_def
      windowThreshold_def)

lemma exec_windowParams: "windowParams (exec s es) = windowParams s"
proof (induction es arbitrary: s)
  case Nil
  show ?case by simp
next
  case (Cons e es)
  have "windowParams (step s e) = windowParams s"
    by (cases e)
      (auto simp: step_def p2s_step_def hasWindow_def p2s_read_def p2s_write_def rcs_packet_def
        handlePacket_def rcs_read_failure_def rcs_step_def s2p_read_def s2p_write_def
        sup_waitpid_def sup_write_def sup_step_def writePacket_def connectionBrokenAbort_def Let_def
        split: p2s_pc.splits rcs_pc.splits s2p_pc.splits sup_pc.splits sum.splits)
  with Cons show ?case by simp
qed

section \<open>The process: a frontend that keeps to the protocol\<close>

lemma hasWindow_honest:
  assumes "honest_inv s" "status s = Running" "p2s s = WFold \<or> p2s s = WPred" "hasWindow s = (s', ok)"
  shows "status s' = Running \<and> deltas s' = deltas s \<and> dataSent s' = dataSent s"
proof -
  have Z: "windowSize s < 2147483648" by (rule windowSize_lt)
  have c: "credit_inv s" and le: "sum_list (deltas s) \<le> dataSent s"
    using assms(1) by (simp_all add: honest_inv_def)
  have r: "0 \<le> window s" "window s \<le> windowSize s" "0 \<le> locWindow s" "locWindow s \<le> windowSize s"
    "0 \<le> pending (rcs s)"
    using c by (simp_all add: credit_inv_def)
  have "held (p2s s) = 0" using assms(3) by auto
  then have eq: "dataSent s + locWindow s + window s + pending (rcs s) = windowSize s + sum_list (deltas s)"
    using c assms(2) by (simp add: credit_inv_def)
  have fits: "window s \<le> windowSize s - locWindow s"
    using eq le r by linarith
  have d: "int32 (windowSize s - locWindow s) = windowSize s - locWindow s"
    using Z r by (intro int32_id) simp_all
  show ?thesis
    using assms(2,4) fits d by (auto simp: hasWindow_def Let_def)
qed

lemma p2s_step_honest:
  assumes "honest_inv s" "status s = Running"
  shows "honest_inv (p2s_step s)"
proof -
  have c: "credit_inv s" and le: "sum_list (deltas s) \<le> dataSent s"
    using assms(1) by (simp_all add: honest_inv_def)
  have c': "credit_inv (p2s_step s)"
    using c assms(2) by (rule p2s_step_credit_inv)
  have r: "0 \<le> locWindow s" "locWindow s \<le> windowSize s"
    using c by (simp_all add: credit_inv_def)
  have "status (p2s_step s) = Running \<and> deltas (p2s_step s) = deltas s
          \<and> dataSent (p2s_step s) = dataSent s"
  proof (cases "p2s s = WFold \<or> p2s s = WPred")
    case True
    obtain s' ok where h: "hasWindow s = (s', ok)" by (cases "hasWindow s")
    from hasWindow_honest [OF assms True h] True h show ?thesis
      by (auto simp: p2s_step_def)
  next
    case False
    with assms(2) r show ?thesis
      by (cases "p2s s") (auto simp: p2s_step_def)
  qed
  with c' le show ?thesis by (simp add: honest_inv_def)
qed

lemma p2s_read_honest:
  assumes "honest_inv s" "status s = Running"
  shows "honest_inv (p2s_read k s)"
proof -
  have "status (p2s_read k s) = Running \<and> deltas (p2s_read k s) = deltas s
          \<and> dataSent (p2s_read k s) = dataSent s"
    using assms(2) by (cases "p2s s") (auto simp: p2s_read_def Let_def)
  with assms p2s_read_credit_inv [of s k] show ?thesis by (simp add: honest_inv_def)
qed

lemma p2s_write_honest:
  assumes "honest_inv s" "status s = Running"
  shows "honest_inv (p2s_write k s)"
proof -
  have c: "credit_inv s" using assms(1) by (simp add: honest_inv_def)
  have "\<forall>a. p2s s = WWrite a \<longrightarrow> 0 < a"
    using c by (auto simp: credit_inv_def)
  then have "(\<forall>a. status (p2s_write k s) \<noteq> Aborted a) \<and> deltas (p2s_write k s) = deltas s
          \<and> dataSent s \<le> dataSent (p2s_write k s)"
    using assms(2) by (cases "p2s s") (auto simp: p2s_write_def connectionBrokenAbort_def)
  with assms p2s_write_credit_inv [of s k] show ?thesis by (simp add: honest_inv_def)
qed

lemma rcs_packet_honest:
  assumes "honest_inv s" "status s = Running" "honest_event s (RCS_packet p)"
  shows "honest_inv (rcs_packet p s)"
proof (cases "rcs s = RRead")
  case True
  have Z: "windowSize s < 2147483648" by (rule windowSize_lt)
  have c: "credit_inv s" and le: "sum_list (deltas s) \<le> dataSent s"
    using assms(1) by (simp_all add: honest_inv_def)
  have c': "credit_inv (rcs_packet p s)"
    using c assms(2) by (rule rcs_packet_credit_inv)
  have r: "0 \<le> window s" "window s \<le> windowSize s"
    using c by (simp_all add: credit_inv_def)
  have d: "int32 (windowSize s - window s) = windowSize s - window s"
    using Z r by (intro int32_id) simp_all
  have h: "p2s_ok (p2s s) (locWindow s) (windowThreshold s)" "0 \<le> locWindow s"
    using c by (simp_all add: credit_inv_def)
  have hl: "held (p2s s) \<le> locWindow s"
    using h by (cases "p2s s") simp_all
  have eq: "dataSent s + (locWindow s - held (p2s s)) + window s = windowSize s + sum_list (deltas s)"
    using c assms(2) True by (simp add: credit_inv_def)
  show ?thesis
  proof (cases "ptype p = IncreaseWindow")
    case iw: True
    with assms(3) have hon: "0 \<le> windowAmount p" "sum_list (deltas s) + windowAmount p \<le> dataSent s"
      by (simp_all add: honest_event_def)
    have fits: "windowAmount p \<le> windowSize s - window s"
      using eq hon hl by linarith
    have "status (rcs_packet p s) = Running \<and> deltas (rcs_packet p s) = deltas s @ [windowAmount p]
      \<and> dataSent (rcs_packet p s) = dataSent s"
      using assms(2) True iw r hon fits
      by (simp add: rcs_packet_def handlePacket_def Let_def d SetSize_def IncreaseWindow_def)
    with c' hon show ?thesis by (simp add: honest_inv_def)
  next
    case False
    then have "(\<forall>a. status (rcs_packet p s) \<noteq> Aborted a) \<and> deltas (rcs_packet p s) = deltas s
      \<and> dataSent (rcs_packet p s) = dataSent s"
      using assms(2) True by (simp add: rcs_packet_def handlePacket_def)
    with c' le show ?thesis by (simp add: honest_inv_def)
  qed
next
  case False
  then show ?thesis using assms by (cases "rcs s") (simp_all add: rcs_packet_def)
qed

lemma rcs_step_honest:
  assumes "honest_inv s" "status s = Running"
  shows "honest_inv (rcs_step s)"
proof -
  have "status (rcs_step s) = Running \<and> deltas (rcs_step s) = deltas s
          \<and> dataSent (rcs_step s) = dataSent s"
    using assms(2) by (cases "rcs s") (auto simp: rcs_step_def)
  with assms rcs_step_credit_inv [of s] show ?thesis by (simp add: honest_inv_def)
qed

lemma other_honest:
  assumes "honest_inv s" "status s = Running"
  shows "honest_inv (rcs_read_failure s)" "honest_inv (s2p_read k s)" "honest_inv (s2p_write ok s)"
    "honest_inv (sup_waitpid r s)" "honest_inv (sup_write ok s)" "honest_inv (sup_step s)"
proof -
  have c: "credit_inv s" and le: "sum_list (deltas s) \<le> dataSent s"
    using assms(1) by (simp_all add: honest_inv_def)
  show "honest_inv (rcs_read_failure s)"
    using assms(2) le other_credit_inv(1) [OF c]
    by (cases "rcs s") (simp_all add: honest_inv_def rcs_read_failure_def connectionBrokenAbort_def)
  show "honest_inv (s2p_read k s)"
    using assms(2) le other_credit_inv(2) [OF c, of k]
    by (cases "s2p s") (simp_all add: honest_inv_def s2p_read_def Let_def)
  show "honest_inv (s2p_write ok s)"
    using assms(2) le other_credit_inv(3) [OF c, of ok]
    by (cases "s2p s") (simp_all add: honest_inv_def s2p_write_def)
  show "honest_inv (sup_waitpid r s)"
    using assms(2) le other_credit_inv(4) [OF c, of r]
    by (cases "sup s"; cases r) (simp_all add: honest_inv_def sup_waitpid_def)
  show "honest_inv (sup_write ok s)"
    using assms(2) le other_credit_inv(5) [OF c, of ok]
    by (cases "sup s")
      (simp_all add: honest_inv_def sup_write_def writePacket_def connectionBrokenAbort_def Let_def)
  show "honest_inv (sup_step s)"
    using assms(2) le other_credit_inv(6) [OF c]
    by (cases "sup s") (simp_all add: honest_inv_def sup_step_def)
qed

lemma step_honest: "honest_inv s \<Longrightarrow> honest_event s e \<Longrightarrow> honest_inv (step s e)"
  by (cases e)
    (simp_all add: step_def p2s_step_honest p2s_read_honest p2s_write_honest
      rcs_packet_honest rcs_step_honest other_honest)

lemma exec_honest: "honest_inv s \<Longrightarrow> frontend_honest s es \<Longrightarrow> honest_inv (exec s es)"
  by (induction es arbitrary: s) (simp_all add: step_honest)

section \<open>The process: the mutex, the exit codes, the exit packet\<close>

lemma hasWindow_frame:
  assumes "hasWindow s = (s', ok)"
  shows "windowMutex s' = windowMutex s \<and> p2s s' = p2s s \<and> rcs s' = rcs s \<and> s2p s' = s2p s
    \<and> sup s' = sup s \<and> stderr s' = stderr s \<and> notifies s' = notifies s
    \<and> waitStatus s' = waitStatus s \<and> controlOut s' = controlOut s
    \<and> (\<forall>c. status s' \<noteq> Exited c \<or> status s = Exited c)"
  using assms by (auto simp: hasWindow_def Let_def split: if_splits)

lemma p2s_step_frame:
  "rcs (p2s_step s) = rcs s \<and> s2p (p2s_step s) = s2p s
    \<and> sup (p2s_step s) = sup s \<and> stderr (p2s_step s) = stderr s \<and> notifies (p2s_step s) = notifies s
    \<and> waitStatus (p2s_step s) = waitStatus s \<and> controlOut (p2s_step s) = controlOut s
    \<and> (\<forall>c. status (p2s_step s) \<noteq> Exited c \<or> status s = Exited c)"
proof (cases "hasWindow s")
  case (Pair s' ok)
  from hasWindow_frame [OF this] Pair show ?thesis
    by (cases "p2s s") (auto simp: p2s_step_def)
qed

lemma p2s_step_mutex:
  assumes "mutex_inv s"
  shows "mutex_inv (p2s_step s)"
proof (cases "hasWindow s")
  case (Pair s' ok)
  from hasWindow_frame [OF this] Pair assms show ?thesis
    by (cases "p2s s") (auto simp: p2s_step_def mutex_inv_def)
qed

lemma rcs_step_mutex:
  assumes "mutex_inv s"
  shows "mutex_inv (rcs_step s)"
  using assms by (cases "rcs s") (auto simp: rcs_step_def mutex_inv_def)

lemma rcs_packet_mutex:
  assumes "mutex_inv s"
  shows "mutex_inv (rcs_packet p s)"
  using assms by (cases "rcs s") (auto simp: rcs_packet_def handlePacket_def Let_def mutex_inv_def)

lemma other_mutex:
  assumes "mutex_inv s"
  shows "mutex_inv (p2s_read k s)" "mutex_inv (p2s_write n s)"
    "mutex_inv (rcs_read_failure s)" "mutex_inv (s2p_read k s)" "mutex_inv (s2p_write ok s)"
    "mutex_inv (sup_waitpid r s)" "mutex_inv (sup_write ok s)" "mutex_inv (sup_step s)"
proof -
  show "mutex_inv (p2s_read k s)"
    using assms by (cases "p2s s") (auto simp: p2s_read_def Let_def mutex_inv_def)
  show "mutex_inv (p2s_write n s)"
    using assms by (cases "p2s s") (auto simp: p2s_write_def connectionBrokenAbort_def mutex_inv_def)
  show "mutex_inv (rcs_read_failure s)"
    using assms by (cases "rcs s") (auto simp: rcs_read_failure_def connectionBrokenAbort_def mutex_inv_def)
  show "mutex_inv (s2p_read k s)"
    using assms by (cases "s2p s") (auto simp: s2p_read_def Let_def mutex_inv_def)
  show "mutex_inv (s2p_write ok s)"
    using assms by (cases "s2p s") (auto simp: s2p_write_def mutex_inv_def)
  show "mutex_inv (sup_waitpid r s)"
    using assms by (cases "sup s"; cases r) (auto simp: sup_waitpid_def mutex_inv_def)
  show "mutex_inv (sup_write ok s)"
    using assms
    by (cases "sup s") (auto simp: sup_write_def writePacket_def connectionBrokenAbort_def Let_def mutex_inv_def)
  show "mutex_inv (sup_step s)"
    using assms by (cases "sup s") (auto simp: sup_step_def mutex_inv_def)
qed

lemma step_mutex: "mutex_inv s \<Longrightarrow> mutex_inv (step s e)"
  by (cases e) (simp_all add: step_def p2s_step_mutex rcs_step_mutex rcs_packet_mutex other_mutex)

lemma exec_mutex: "mutex_inv s \<Longrightarrow> mutex_inv (exec s es)"
  by (induction es arbitrary: s) (simp_all add: step_mutex)

lemma main_mutex: "mutex_inv (main wp)"
  by (simp add: main_def Let_def mutex_inv_def)

lemma fatal_diagnostics:
  "fatal_diagnostic connection_broken"
  "fatal_diagnostic (unexpected_packet t)"
  "fatal_diagnostic (waitpid_failed msg)"
  unfolding fatal_diagnostic_def by blast+

lemma step_exit: 
  assumes "exit_inv s"
  shows "exit_inv (step s e)"
proof (cases "status s = Running")
  case False
  with assms show ?thesis by (simp add: step_def)
next
  case True
  show ?thesis
  proof (cases e)
    case P2S_step
    with True assms p2s_step_frame [of s] show ?thesis
      by (auto simp: step_def exit_inv_def)
  next
    case (P2S_read k)
    with True assms show ?thesis
      by (cases "p2s s") (auto simp: step_def exit_inv_def p2s_read_def Let_def)
  next
    case (P2S_write n)
    with True assms show ?thesis
      by (cases "p2s s")
        (auto simp: step_def exit_inv_def p2s_write_def connectionBrokenAbort_def fatal_diagnostics)
  next
    case (RCS_packet p)
    with True assms show ?thesis
      by (cases "rcs s")
        (auto simp: step_def exit_inv_def rcs_packet_def handlePacket_def Let_def fatal_diagnostics)
  next
    case RCS_read_failure
    with True assms show ?thesis
      by (cases "rcs s")
        (auto simp: step_def exit_inv_def rcs_read_failure_def connectionBrokenAbort_def fatal_diagnostics)
  next
    case RCS_step
    with True assms show ?thesis
      by (cases "rcs s") (auto simp: step_def exit_inv_def rcs_step_def)
  next
    case (S2P_read k)
    with True assms show ?thesis
      by (cases "s2p s") (auto simp: step_def exit_inv_def s2p_read_def Let_def)
  next
    case (S2P_write ok)
    with True assms show ?thesis
      by (cases "s2p s") (auto simp: step_def exit_inv_def s2p_write_def)
  next
    case (SUP_waitpid r)
    with True assms show ?thesis
      by (cases "sup s"; cases r) (auto simp: step_def exit_inv_def sup_waitpid_def fatal_diagnostics)
  next
    case (SUP_write ok)
    with True assms show ?thesis
      by (cases "sup s")
        (auto simp: step_def exit_inv_def sup_write_def writePacket_def connectionBrokenAbort_def
          Let_def fatal_diagnostics)
  next
    case SUP_step
    with True assms show ?thesis
      by (cases "sup s") (auto simp: step_def exit_inv_def sup_step_def)
  qed
qed

lemma exec_exit: "exit_inv s \<Longrightarrow> exit_inv (exec s es)"
  by (induction es arbitrary: s) (simp_all add: step_exit)

lemma main_exit: "exit_inv (main wp)"
  by (simp add: main_def Let_def exit_inv_def)

lemma step_sup:
  assumes "sup_inv s"
  shows "sup_inv (step s e)"
proof (cases "status s = Running")
  case False
  with assms show ?thesis by (simp add: step_def)
next
  case True
  show ?thesis
  proof (cases e)
    case P2S_step
    with True assms p2s_step_frame [of s] show ?thesis
      by (auto simp: step_def sup_inv_def split: sup_pc.splits)
  next
    case (P2S_read k)
    with True assms show ?thesis
      by (cases "p2s s") (auto simp: step_def sup_inv_def p2s_read_def Let_def split: sup_pc.splits)
  next
    case (P2S_write n)
    with True assms show ?thesis
      by (cases "p2s s")
        (auto simp: step_def sup_inv_def p2s_write_def connectionBrokenAbort_def split: sup_pc.splits)
  next
    case (RCS_packet p)
    with True assms show ?thesis
      by (cases "rcs s")
        (auto simp: step_def sup_inv_def rcs_packet_def handlePacket_def Let_def split: sup_pc.splits)
  next
    case RCS_read_failure
    with True assms show ?thesis
      by (cases "rcs s")
        (auto simp: step_def sup_inv_def rcs_read_failure_def connectionBrokenAbort_def split: sup_pc.splits)
  next
    case RCS_step
    with True assms show ?thesis
      by (cases "rcs s") (auto simp: step_def sup_inv_def rcs_step_def split: sup_pc.splits)
  next
    case (S2P_read k)
    with True assms show ?thesis
      by (cases "s2p s") (auto simp: step_def sup_inv_def s2p_read_def Let_def split: sup_pc.splits)
  next
    case (S2P_write ok)
    with True assms show ?thesis
      by (cases "s2p s") (auto simp: step_def sup_inv_def s2p_write_def split: sup_pc.splits)
  next
    case (SUP_waitpid r)
    with True assms show ?thesis
      by (cases "sup s"; cases r) (auto simp: step_def sup_inv_def sup_waitpid_def)
  next
    case (SUP_write ok)
    with True assms show ?thesis
      by (cases "sup s")
        (auto simp: step_def sup_inv_def sup_write_def writePacket_def connectionBrokenAbort_def Let_def)
  next
    case SUP_step
    with True assms show ?thesis
      by (cases "sup s") (auto simp: step_def sup_inv_def sup_step_def)
  qed
qed

lemma exec_sup: "sup_inv s \<Longrightarrow> sup_inv (exec s es)"
  by (induction es arbitrary: s) (simp_all add: step_sup)

lemma main_sup: "sup_inv (main wp)"
  by (simp add: main_def Let_def sup_inv_def)

section \<open>Sessions\<close>

lemma exec_stopped: "status s \<noteq> Running \<Longrightarrow> exec s es = s"
  by (induction es) (simp_all add: step_def)

lemma session_credit_inv: "valid_params wp \<Longrightarrow> credit_inv (session wp es)"
  by (simp add: session_def exec_credit_inv main_credit_inv)

lemma session_windowParams: "windowParams (session wp es) = wp"
  by (simp add: session_def exec_windowParams main_def Let_def)

lemma session_invalid:
  "\<not> valid_params wp \<Longrightarrow> session wp es = main wp \<and> ptyReads (main wp) = [] \<and> p2s (main wp) = WTop"
  by (simp add: session_def exec_stopped main_def Let_def valid_params_def)

lemma session_sup_inv: "sup_inv (session wp es)"
  by (simp add: session_def exec_sup main_sup)

lemma session_exit_inv: "exit_inv (session wp es)"
  by (simp add: session_def exec_exit main_exit)

lemma session_mutex_inv: "mutex_inv (session wp es)"
  by (simp add: session_def exec_mutex main_mutex)

lemma ptype_exit_packet: "ptype (exit_packet st) = ChildExitStatus"
  by (simp add: exit_packet_def Let_def)

section \<open>Wait statuses and decimal printing\<close>

lemma mask7: "(0x7f :: 32 word) = mask 7" by (simp add: mask_eq_exp_minus_1)
lemma mask8: "(0xff :: 32 word) = mask 8" by (simp add: mask_eq_exp_minus_1)
lemma ff00: "(0xff00 :: 32 word) = push_bit 8 (mask 8)" by (simp add: mask_eq_exp_minus_1)

lemma exited_normally: "WIFEXITED (wait_status (Exit code))"
  unfolding WIFEXITED_def wait_status.simps mask7 mask8
  by (rule bit_word_eqI) (auto simp: bit_simps)

lemma exit_code_of_status: "WEXITSTATUS (wait_status (Exit code)) = code AND 0xff"
  unfolding WEXITSTATUS_def wait_status.simps ff00 mask8
  by (rule bit_word_eqI) (auto simp: bit_simps)

lemma killed_not_exited:
  assumes "0 < sig" "sig < 128"
  shows "\<not> WIFEXITED (wait_status (Killed sig core))"
proof
  assume "WIFEXITED (wait_status (Killed sig core))"
  then have "(of_nat sig OR (if core then 0x80 else 0)) AND mask 7 = (0 :: 32 word)"
    by (simp add: WIFEXITED_def mask7)
  then have "(of_nat sig :: 32 word) AND mask 7 = 0"
    by (simp add: bit.conj_disj_distrib2 or_eq_0_iff)
  then have "take_bit 7 (of_nat sig :: 32 word) = 0"
    by (simp add: take_bit_eq_mask)
  then have "(of_nat (take_bit 7 sig) :: 32 word) = 0"
    by (simp add: take_bit_of_nat)
  moreover have "take_bit 7 sig = sig"
    using assms(2) by (simp add: take_bit_nat_eq_self)
  ultimately have "(of_nat sig :: 32 word) = 0" by simp
  then have "(2 :: nat) ^ 32 dvd sig"
    by (simp add: word_of_nat_eq_0_iff)
  then have "(2 :: nat) ^ 32 \<le> sig"
    using assms(1) by (rule dvd_imp_le)
  with assms(2) show False by simp
qed

lemma sint_low_byte: "sint (code AND 0xff :: 32 word) = uint code mod 256"
proof -
  have "uint (code AND 0xff) = take_bit 8 (uint code)"
    unfolding mask8 by (simp add: take_bit_eq_mask [symmetric] unsigned_take_bit_eq)
  then have u: "uint (code AND 0xff) = uint code mod 256"
    by (simp add: take_bit_eq_mod)
  have "0 \<le> uint code mod 256" "uint code mod 256 < 256" by simp_all
  then have "signed_take_bit 31 (uint code mod 256) = uint code mod 256"
    by (intro signed_take_bit_int_eq_self) simp_all
  with u show ?thesis by (simp add: sint_uint)
qed

lemma digit_set: "n < 10 \<Longrightarrow> ''0123456789'' ! n \<in> set ''0123456789''"
  by (rule nth_mem) simp

lemma digit_inj:
  assumes "m < 10" "n < 10" "''0123456789'' ! m = ''0123456789'' ! n"
  shows "m = n"
proof -
  have "distinct ''0123456789''" by simp
  from nth_eq_iff_index_eq [OF this, of m n] assms show ?thesis by simp
qed

lemma decimal_digits: "set (decimal n) \<subseteq> set ''0123456789''"
proof (induction n rule: decimal.induct)
  case (1 n)
  show ?case
  proof (cases "n < 10")
    case True
    then have "decimal n = [''0123456789'' ! n]" by (subst decimal.simps) simp
    with digit_set [OF True] show ?thesis by simp
  next
    case False
    then have "decimal n = decimal (n div 10) @ [''0123456789'' ! (n mod 10)]"
      by (subst decimal.simps) simp
    moreover have "''0123456789'' ! (n mod 10) \<in> set ''0123456789''"
      by (rule digit_set) simp
    ultimately show ?thesis using 1 False by simp
  qed
qed

lemma decimal_nonempty: "decimal n \<noteq> []"
  by (subst decimal.simps) simp

lemma decimal_inj: "decimal m = decimal n \<Longrightarrow> m = n"
proof (induction m arbitrary: n rule: decimal.induct)
  case (1 m)
  show ?case
  proof (cases "m < 10")
    case m: True
    then have dm: "decimal m = [''0123456789'' ! m]" by (subst decimal.simps) simp
    show ?thesis
    proof (cases "n < 10")
      case True
      then have "decimal n = [''0123456789'' ! n]" by (subst decimal.simps) simp
      with dm "1.prems" have "''0123456789'' ! m = ''0123456789'' ! n" by simp
      with m True show ?thesis by (rule digit_inj)
    next
      case False
      then have "decimal n = decimal (n div 10) @ [''0123456789'' ! (n mod 10)]"
        by (subst decimal.simps) simp
      with dm "1.prems" decimal_nonempty [of "n div 10"] show ?thesis by simp
    qed
  next
    case m: False
    then have dm: "decimal m = decimal (m div 10) @ [''0123456789'' ! (m mod 10)]"
      by (subst decimal.simps) simp
    show ?thesis
    proof (cases "n < 10")
      case True
      then have "decimal n = [''0123456789'' ! n]" by (subst decimal.simps) simp
      with dm "1.prems" decimal_nonempty [of "m div 10"] show ?thesis by simp
    next
      case False
      then have "decimal n = decimal (n div 10) @ [''0123456789'' ! (n mod 10)]"
        by (subst decimal.simps) simp
      with dm "1.prems" have e: "decimal (m div 10) = decimal (n div 10)"
        and d: "''0123456789'' ! (m mod 10) = ''0123456789'' ! (n mod 10)"
        by simp_all
      from "1.IH" [OF m e] have q: "m div 10 = n div 10" .
      have "m mod 10 = n mod 10"
        using _ _ d by (rule digit_inj) simp_all
      with q show ?thesis
        by (metis div_mult_mod_eq)
    qed
  qed
qed

lemma printf_d_inj: "printf_d a = printf_d b \<Longrightarrow> a = b"
proof -
  assume e: "printf_d a = printf_d b"
  have minus: "CHR ''-'' \<notin> set ''0123456789''" by simp
  have nd: "\<And>n m. CHR ''-'' # decimal n \<noteq> decimal m"
  proof
    fix n m assume "CHR ''-'' # decimal n = decimal m"
    then have "CHR ''-'' \<in> set (decimal m)" by (metis list.set_intros(1))
    with decimal_digits [of m] minus show False by blast
  qed
  show ?thesis
  proof (cases "a < 0"; cases "b < 0")
    assume "a < 0" "b < 0"
    with e have "decimal (nat (- a)) = decimal (nat (- b))" by (simp add: printf_d_def)
    then have "nat (- a) = nat (- b)" by (rule decimal_inj)
    with \<open>a < 0\<close> \<open>b < 0\<close> show ?thesis by simp
  next
    assume "a < 0" "\<not> b < 0"
    with e nd show ?thesis by (simp add: printf_d_def)
  next
    assume "\<not> a < 0" "b < 0"
    with e nd [of "nat (- b)" "nat a"] show ?thesis by (simp add: printf_d_def)
  next
    assume "\<not> a < 0" "\<not> b < 0"
    with e have "decimal (nat a) = decimal (nat b)" by (simp add: printf_d_def)
    then have "nat a = nat b" by (rule decimal_inj)
    with \<open>\<not> a < 0\<close> \<open>\<not> b < 0\<close> show ?thesis by simp
  qed
qed

section \<open>The claims\<close>

text \<open>
  C1 (flow-control soundness). In every state a session reaches, so after every prefix
  of the worker's execution, the number of bytes written to the data socket is at most
  the window size plus the sum of the \<^verbatim>\<open>IncreaseWindow\<close> deltas received so far;
  equivalently, the bytes written minus the credits received never exceed the window
  size. The window parameters are the ones \<^verbatim>\<open>main\<close> accepts and the deltas are
  non-negative, as the packet's data model has them.
\<close>

theorem flow_control_soundness:
  assumes "valid_params wp" and "\<forall>d\<in>set (deltas (session wp es)). 0 \<le> d"
  shows "dataSent (session wp es) \<le> sint (size' wp) + sum_list (deltas (session wp es))
       \<and> dataSent (session wp es) - sum_list (deltas (session wp es)) \<le> sint (size' wp)"
proof -
  define s where "s = session wp es"
  have c: "credit_inv s"
    using assms(1) by (simp add: s_def session_credit_inv)
  have z: "windowSize s = sint (size' wp)"
    by (simp add: s_def windowSize_def session_windowParams)
  have "0 \<le> window s" "0 \<le> pending (rcs s)"
    using c by (simp_all add: credit_inv_def)
  moreover have "dataSent s + window s + pending (rcs s) \<le> windowSize s + sum_list (deltas s)"
    using c assms(2) by (simp add: credit_inv_def s_def)
  ultimately show ?thesis
    unfolding s_def [symmetric] z by linarith
qed

lemma credited_session_state:
  "dataSent (session wp_demo credited_session) = 26
     \<and> deltas (session wp_demo credited_session) = [10]
     \<and> locWindow (session wp_demo credited_session) = 0
     \<and> window (session wp_demo credited_session) = 0
     \<and> status (session wp_demo credited_session) = Running
     \<and> notifies (session wp_demo credited_session) = [None]"
  by code_simp

lemma valid_params_demo: "valid_params wp_demo"
  by code_simp

theorem flow_control_soundness_witness:
  "valid_params wp_demo
     \<and> deltas (session wp_demo credited_session) = [10]
     \<and> dataSent (session wp_demo credited_session) = 26
     \<and> dataSent (session wp_demo credited_session)
         \<le> sint (size' wp_demo) + sum_list (deltas (session wp_demo credited_session))"
proof -
  have "\<forall>d\<in>set (deltas (session wp_demo credited_session)). 0 \<le> d"
    using credited_session_state by simp
  from flow_control_soundness [OF valid_params_demo this] show ?thesis
    using credited_session_state valid_params_demo by simp
qed

text \<open>
  C3 (range of the credit counters), as amended. In every state a session reaches,
  \<open>locWindow\<close> and the shared \<open>window\<close> lie between 0 and the window size: an assertion
  stops the process before a counter leaves the range. The assertion of the fold
  (line 111) does not follow from the assertion of the control reader (line 153); no
  assertion fails when the frontend keeps to the protocol, that is when every delta is
  non-negative and the deltas together never exceed the bytes written to the data
  socket.
\<close>

theorem credit_counters_in_range:
  assumes "valid_params wp"
  shows "0 \<le> locWindow (session wp es) \<and> locWindow (session wp es) \<le> sint (size' wp)
       \<and> 0 \<le> window (session wp es) \<and> window (session wp es) \<le> sint (size' wp)
       \<and> (frontend_honest (main wp) es \<longrightarrow> (\<forall>a. status (session wp es) \<noteq> Aborted a))"
proof -
  have c: "credit_inv (session wp es)"
    using assms by (rule session_credit_inv)
  have z: "windowSize (session wp es) = sint (size' wp)"
    by (simp add: windowSize_def session_windowParams)
  have h: "honest_inv (main wp)"
    using main_credit_inv [OF assms] assms
    by (simp add: honest_inv_def) (simp add: main_def Let_def valid_params_def)
  have "frontend_honest (main wp) es \<longrightarrow> (\<forall>a. status (session wp es) \<noteq> Aborted a)"
    using exec_honest [OF h, of es] by (simp add: honest_inv_def session_def)
  with c z show ?thesis
    by (simp add: credit_inv_def)
qed

theorem credit_counters_in_range_witness:
  "valid_params wp_demo \<and> frontend_honest (main wp_demo) credited_session
     \<and> status (session wp_demo credited_session) = Running
     \<and> locWindow (session wp_demo credited_session) = 0
     \<and> window (session wp_demo credited_session) = 0
     \<and> locWindow (session wp_demo credited_session) \<le> sint (size' wp_demo)"
proof -
  have h: "frontend_honest (main wp_demo) credited_session"
    by code_simp
  from credit_counters_in_range [OF valid_params_demo, of credited_session] show ?thesis
    using h credited_session_state valid_params_demo by simp
qed

theorem fold_assertion_counterexample:
  "valid_params wp_demo
     \<and> status (session wp_demo (butlast overgranted_session)) = Running
     \<and> deltas (session wp_demo (butlast overgranted_session)) = [16]
     \<and> rcs (session wp_demo (butlast overgranted_session)) = RRead
     \<and> window (session wp_demo (butlast overgranted_session)) = 16
     \<and> locWindow (session wp_demo (butlast overgranted_session)) = 6
     \<and> status (session wp_demo overgranted_session) = Aborted Assert_fold"
  by code_simp

text \<open>
  C4 (credit gating of the pty reads). Every read of the pty a session has issued was
  issued with \<open>locWindow\<close> at or above the threshold and asked for at most the smaller
  of 32 KiB and \<open>locWindow\<close>; and whenever the worker stands at the read, \<open>locWindow\<close>
  is at or above the threshold.
\<close>

theorem credit_gating:
  "(\<forall>(count, credit)\<in>set (ptyReads (session wp es)).
       sint (threshold wp) \<le> credit \<and> count \<le> min (32 * 1024) credit)
   \<and> (p2s (session wp es) = WRead \<longrightarrow> sint (threshold wp) \<le> locWindow (session wp es))"
proof (cases "valid_params wp")
  case True
  have c: "credit_inv (session wp es)"
    using True by (rule session_credit_inv)
  have t: "windowThreshold (session wp es) = sint (threshold wp)"
    by (simp add: windowThreshold_def session_windowParams)
  have "\<forall>(c, l)\<in>set (ptyReads (session wp es)).
          sint (threshold wp) \<le> l \<and> c = min (32 * 1024) l \<and> 1 \<le> c"
    using c unfolding credit_inv_def t by blast
  moreover have "p2s_ok (p2s (session wp es)) (locWindow (session wp es)) (sint (threshold wp))"
    using c unfolding credit_inv_def t by blast
  ultimately show ?thesis by auto
next
  case False
  from session_invalid [OF this, of es] show ?thesis by simp
qed

theorem credit_gating_witness:
  "ptyReads (session wp_demo waiting_session) = [(16, 16), (12, 12)]
     \<and> sint (threshold wp_demo) = 8
     \<and> p2s (session wp_demo (butlast waiting_session)) = WRead
     \<and> sint (threshold wp_demo) \<le> locWindow (session wp_demo (butlast waiting_session))"
proof -
  have e: "ptyReads (session wp_demo waiting_session) = [(16, 16), (12, 12)]
     \<and> sint (threshold wp_demo) = 8
     \<and> p2s (session wp_demo (butlast waiting_session)) = WRead"
    by code_simp
  from credit_gating [of wp_demo "butlast waiting_session"] e show ?thesis by simp
qed









text \<open>
  C5 (the exit packet), as amended. In every session at most one packet is written to
  the control socket, it is a \<^verbatim>\<open>ChildExitStatus\<close> packet, and nothing is written after
  it. Once the write of line 196 has succeeded (the supervisor stands at its joins)
  exactly that one packet has been written. A session that reaches the reap need not
  write it: a failed write ends the process with code 1, and so does a fatal error of
  another thread before the write.
\<close>

theorem exit_packet_written_at_most_once:
  "length (controlOut (session wp es)) \<le> 1
   \<and> (\<forall>(p, ok)\<in>set (controlOut (session wp es)). ptype p = ChildExitStatus)
   \<and> (sup (session wp es) \<in> {SJoin_s2p, SJoin_p2s, SJoin_rcs} \<longrightarrow>
        (\<exists>st. waitStatus (session wp es) = Some st
              \<and> controlOut (session wp es) = [(exit_packet st, True)]))
   \<and> (\<forall>p. (p, False) \<in> set (controlOut (session wp es)) \<longrightarrow> status (session wp es) = Exited 1)"
  using session_sup_inv [of wp es]
  by (cases "sup (session wp es)") (auto simp: sup_inv_def ptype_exit_packet)

theorem exit_packet_written_at_most_once_witness:
  "sup (session wp_demo killed_session) = SJoin_s2p
     \<and> waitStatus (session wp_demo killed_session) = Some 9
     \<and> controlOut (session wp_demo killed_session) = [(\<lparr>ptype = 2, u = 1\<rparr>, True)]
     \<and> length (controlOut (session wp_demo killed_session)) \<le> 1"
proof -
  have "sup (session wp_demo killed_session) = SJoin_s2p
     \<and> waitStatus (session wp_demo killed_session) = Some 9
     \<and> controlOut (session wp_demo killed_session) = [(\<lparr>ptype = 2, u = 1\<rparr>, True)]"
    by code_simp
  with exit_packet_written_at_most_once [of wp_demo killed_session] show ?thesis by simp
qed

theorem exit_packet_counterexample:
  "waitStatus (session wp_demo broken_session) = Some 0
     \<and> controlOut (session wp_demo broken_session) = []
     \<and> status (session wp_demo broken_session) = Exited 1"
  by code_simp

text \<open>
  C6 (the exit status sent). The payload of the exit packet is the low 8 bits of the
  exit code when the child exited normally, and 1 when a signal ended it; the packet a
  session writes is the one built from the status \<^verbatim>\<open>waitpid\<close> stored.
\<close>

theorem exit_status_mapping:
  "u (exit_packet (wait_status (Exit code))) = code AND 0xff
   \<and> exitStatus (exit_packet (wait_status (Exit code))) = uint code mod 256
   \<and> (0 < sig \<and> sig < 128 \<longrightarrow> exitStatus (exit_packet (wait_status (Killed sig core))) = 1)
   \<and> ptype (exit_packet st) = ChildExitStatus
   \<and> (\<forall>(p, ok)\<in>set (controlOut (session wp es)).
         \<exists>st'. waitStatus (session wp es) = Some st' \<and> p = exit_packet st')"
proof -
  have a: "u (exit_packet (wait_status (Exit code))) = code AND 0xff"
    using exited_normally [of code] exit_code_of_status [of code]
    by (simp add: exit_packet_def Let_def)
  then have b: "exitStatus (exit_packet (wait_status (Exit code))) = uint code mod 256"
    by (simp add: exitStatus_def sint_low_byte)
  have c: "0 < sig \<and> sig < 128 \<longrightarrow> exitStatus (exit_packet (wait_status (Killed sig core))) = 1"
    using killed_not_exited [of sig core] by (simp add: exit_packet_def Let_def exitStatus_def)
  have d: "\<forall>(p, ok)\<in>set (controlOut (session wp es)).
         \<exists>st'. waitStatus (session wp es) = Some st' \<and> p = exit_packet st'"
    using session_sup_inv [of wp es]
    by (cases "sup (session wp es)") (auto simp: sup_inv_def)
  from a b c d show ?thesis
    by (simp add: ptype_exit_packet)
qed

theorem exit_status_mapping_witness:
  "exitStatus (exit_packet (wait_status (Killed 9 False))) = 1
     \<and> exitStatus (exit_packet (wait_status (Exit 259))) = 3
     \<and> waitStatus (session wp_demo killed_session) = Some (wait_status (Killed 9 False))
     \<and> map (exitStatus \<circ> fst) (controlOut (session wp_demo killed_session)) = [1]"
proof -
  have e: "waitStatus (session wp_demo killed_session) = Some (wait_status (Killed 9 False))
     \<and> map (exitStatus \<circ> fst) (controlOut (session wp_demo killed_session)) = [1]"
    by code_simp
  from exit_status_mapping [of 259 9 False 0 wp_demo killed_session] e show ?thesis
    by simp
qed

text \<open>
  C7 (the exit codes of the backend), as amended. The backend never ends with exit
  code 0: the control reader's loop has no exit, so the last join of \<^verbatim>\<open>mainLoop\<close>
  never returns and \<^verbatim>\<open>main\<close> never reaches its \<^verbatim>\<open>return 0\<close>. Whenever the process
  ends through \<^verbatim>\<open>exit\<close> the code is 1 and the last line on standard error is one of
  the three fatal diagnostics (connection broken, unexpected packet, waitpid failed);
  this is also how a session ends whose child was reaped, whose exit packet was
  delivered and whose two data workers have finished. And every fatal error ends a
  running process with exit code 1 after its diagnostic: \<^verbatim>\<open>waitpid\<close> failing, the read
  of the control socket failing, \<^verbatim>\<open>writeAllRestarting\<close> reporting failure on the data
  socket or on the control socket, and a packet of a type the handler does not know.
\<close>

theorem backend_exit_codes:
  "status (session wp es) \<noteq> Exited 0
   \<and> rcs (session wp es) \<noteq> RDone
   \<and> (\<forall>c. status (session wp es) = Exited c \<longrightarrow>
         c = 1 \<and> stderr (session wp es) \<noteq> []
         \<and> fatal_diagnostic (last (stderr (session wp es))))
   \<and> (status s = Running \<and> sup s = SWaitpid \<longrightarrow>
         status (step s (SUP_waitpid (Inl msg))) = Exited 1
         \<and> stderr (step s (SUP_waitpid (Inl msg))) = stderr s @ [waitpid_failed msg])
   \<and> (status s = Running \<and> rcs s = RRead \<longrightarrow>
         status (step s RCS_read_failure) = Exited 1
         \<and> stderr (step s RCS_read_failure) = stderr s @ [connection_broken])
   \<and> (status s = Running \<and> p2s s = WWrite amt1 \<and> int k < amt1 \<longrightarrow>
         status (step s (P2S_write k)) = Exited 1
         \<and> stderr (step s (P2S_write k)) = stderr s @ [connection_broken])
   \<and> (status s = Running \<and> sup s = SWritePacket q \<longrightarrow>
         status (step s (SUP_write False)) = Exited 1
         \<and> stderr (step s (SUP_write False)) = stderr s @ [connection_broken])
   \<and> (status s = Running \<and> rcs s = RRead \<and> ptype p \<noteq> SetSize \<and> ptype p \<noteq> IncreaseWindow \<longrightarrow>
         status (step s (RCS_packet p)) = Exited 1
         \<and> stderr (step s (RCS_packet p)) = stderr s @ [unexpected_packet (sint (ptype p))])"
proof -
  have a: "status (session wp es) \<noteq> Exited 0
   \<and> rcs (session wp es) \<noteq> RDone
   \<and> (\<forall>c. status (session wp es) = Exited c \<longrightarrow>
         c = 1 \<and> stderr (session wp es) \<noteq> []
         \<and> fatal_diagnostic (last (stderr (session wp es))))"
    using session_exit_inv [of wp es] by (auto simp: exit_inv_def)
  have b: "status s = Running \<and> sup s = SWaitpid \<longrightarrow>
         status (step s (SUP_waitpid (Inl msg))) = Exited 1
         \<and> stderr (step s (SUP_waitpid (Inl msg))) = stderr s @ [waitpid_failed msg]"
    by (simp add: step_def sup_waitpid_def)
  have c: "status s = Running \<and> rcs s = RRead \<longrightarrow>
         status (step s RCS_read_failure) = Exited 1
         \<and> stderr (step s RCS_read_failure) = stderr s @ [connection_broken]"
    by (simp add: step_def rcs_read_failure_def connectionBrokenAbort_def)
  have d: "status s = Running \<and> p2s s = WWrite amt1 \<and> int k < amt1 \<longrightarrow>
         status (step s (P2S_write k)) = Exited 1
         \<and> stderr (step s (P2S_write k)) = stderr s @ [connection_broken]"
    by (simp add: step_def p2s_write_def connectionBrokenAbort_def)
  have e: "status s = Running \<and> sup s = SWritePacket q \<longrightarrow>
         status (step s (SUP_write False)) = Exited 1
         \<and> stderr (step s (SUP_write False)) = stderr s @ [connection_broken]"
    by (simp add: step_def sup_write_def writePacket_def connectionBrokenAbort_def Let_def)
  have f: "status s = Running \<and> rcs s = RRead \<and> ptype p \<noteq> SetSize \<and> ptype p \<noteq> IncreaseWindow \<longrightarrow>
         status (step s (RCS_packet p)) = Exited 1
         \<and> stderr (step s (RCS_packet p)) = stderr s @ [unexpected_packet (sint (ptype p))]"
    by (simp add: step_def rcs_packet_def handlePacket_def)
  from a b c d e f show ?thesis by blast
qed

theorem backend_exit_codes_witness:
  "status (session wp_demo unknown_packet_session) = Exited 1
     \<and> stderr (session wp_demo unknown_packet_session) = [unexpected_packet 255]
     \<and> fatal_diagnostic (last (stderr (session wp_demo unknown_packet_session)))
     \<and> status (main wp_demo) = Running \<and> sup (main wp_demo) = SWaitpid \<and> rcs (main wp_demo) = RRead
     \<and> status (step (main wp_demo) (SUP_waitpid (Inl ''No child processes''))) = Exited 1
     \<and> stderr (step (main wp_demo) (SUP_waitpid (Inl ''No child processes'')))
         = [waitpid_failed ''No child processes'']
     \<and> status (step (main wp_demo) RCS_read_failure) = Exited 1
     \<and> stderr (step (main wp_demo) RCS_read_failure) = [connection_broken]
     \<and> p2s (session wp_demo [P2S_step, P2S_read 10]) = WWrite 10
     \<and> status (step (session wp_demo [P2S_step, P2S_read 10]) (P2S_write 4)) = Exited 1
     \<and> stderr (step (session wp_demo [P2S_step, P2S_read 10]) (P2S_write 4)) = [connection_broken]
     \<and> sup (session wp_demo [SUP_waitpid (Inr 0)]) = SWritePacket (exit_packet 0)
     \<and> status (step (session wp_demo [SUP_waitpid (Inr 0)]) (SUP_write False)) = Exited 1
     \<and> stderr (step (session wp_demo [SUP_waitpid (Inr 0)]) (SUP_write False)) = [connection_broken]"
proof -
  have e: "status (session wp_demo unknown_packet_session) = Exited 1
     \<and> stderr (session wp_demo unknown_packet_session) = [unexpected_packet 255]"
    by code_simp
  have m: "status (main wp_demo) = Running \<and> sup (main wp_demo) = SWaitpid
     \<and> rcs (main wp_demo) = RRead \<and> stderr (main wp_demo) = []"
    by code_simp
  have w: "status (session wp_demo [P2S_step, P2S_read 10]) = Running
     \<and> p2s (session wp_demo [P2S_step, P2S_read 10]) = WWrite 10
     \<and> stderr (session wp_demo [P2S_step, P2S_read 10]) = []"
    by code_simp
  have x: "status (session wp_demo [SUP_waitpid (Inr 0)]) = Running
     \<and> sup (session wp_demo [SUP_waitpid (Inr 0)]) = SWritePacket (exit_packet 0)
     \<and> stderr (session wp_demo [SUP_waitpid (Inr 0)]) = []"
    by code_simp
  from backend_exit_codes [of wp_demo unknown_packet_session "main wp_demo" "''No child processes''"]
    backend_exit_codes [of wp_demo "[]" "session wp_demo [P2S_step, P2S_read 10]" "[]" 10 4]
    backend_exit_codes [of wp_demo "[]" "session wp_demo [SUP_waitpid (Inr 0)]" "[]" 0 0 "exit_packet 0"]
    e m w x
  show ?thesis by simp
qed

theorem clean_teardown_counterexample:
  "waitStatus (session wp_demo clean_session) = Some 0
     \<and> controlOut (session wp_demo clean_session) = [(\<lparr>ptype = 2, u = 0\<rparr>, True)]
     \<and> p2s (session wp_demo clean_session) = WDone
     \<and> s2p (session wp_demo clean_session) = TDone
     \<and> sup (session wp_demo clean_session) = SJoin_rcs
     \<and> status (session wp_demo clean_session) = Exited 1"
  by code_simp

text \<open>
  C8 (protocol violations). For a packet whose type is none of \<^verbatim>\<open>SetSize\<close>,
  \<^verbatim>\<open>IncreaseWindow\<close> and \<^verbatim>\<open>ChildExitStatus\<close>, the handler appends to standard error the
  line \<^verbatim>\<open>internal error: unexpected packet\<close> followed by the type id in decimal, and
  ends the process with exit code 1; that is what the reader's dispatch of such a
  packet does to a running process. The line tells the type id: two ids print
  differently.
\<close>

theorem unexpected_packet_is_fatal:
  assumes "ptype p \<noteq> SetSize" and "ptype p \<noteq> IncreaseWindow" and "ptype p \<noteq> ChildExitStatus"
  shows "status (handlePacket s p) = Exited 1
       \<and> stderr (handlePacket s p)
           = stderr s @ [''internal error: unexpected packet '' @ printf_d (sint (ptype p)) @ newline]
       \<and> (status s = Running \<and> rcs s = RRead \<longrightarrow> step s (RCS_packet p) = handlePacket s p)
       \<and> (\<forall>t. unexpected_packet t = unexpected_packet (sint (ptype p)) \<longrightarrow> t = sint (ptype p))"
proof -
  have "\<forall>t. unexpected_packet t = unexpected_packet (sint (ptype p)) \<longrightarrow> t = sint (ptype p)"
    by (auto simp: unexpected_packet_def dest: printf_d_inj)
  with assms(1,2) show ?thesis
    by (simp add: handlePacket_def unexpected_packet_def step_def rcs_packet_def)
qed

theorem unexpected_packet_is_fatal_witness:
  "ptype \<lparr>ptype = 255, u = 0\<rparr> \<noteq> SetSize \<and> ptype \<lparr>ptype = 255, u = 0\<rparr> \<noteq> IncreaseWindow
     \<and> ptype \<lparr>ptype = 255, u = 0\<rparr> \<noteq> ChildExitStatus
     \<and> status (handlePacket (main wp_demo) \<lparr>ptype = 255, u = 0\<rparr>) = Exited 1
     \<and> stderr (handlePacket (main wp_demo) \<lparr>ptype = 255, u = 0\<rparr>)
         = [''internal error: unexpected packet 255'' @ newline]"
proof -
  have t: "ptype \<lparr>ptype = 255, u = 0\<rparr> \<noteq> SetSize" "ptype \<lparr>ptype = 255, u = 0\<rparr> \<noteq> IncreaseWindow"
    "ptype \<lparr>ptype = 255, u = 0\<rparr> \<noteq> ChildExitStatus"
    by (simp_all add: SetSize_def IncreaseWindow_def ChildExitStatus_def)
  have d: "printf_d (sint (255 :: 32 word)) = ''255''"
    by code_simp
  have e: "stderr (main wp_demo) = []"
    by (simp add: main_def Let_def)
  from unexpected_packet_is_fatal [OF t, of "main wp_demo"] show ?thesis
    using t d e by simp
qed

text \<open>
  C9 (the notification and the mutex), as amended. The handler adds the credit to the
  shared counter while it holds the mutex, and it calls \<^verbatim>\<open>notify_one\<close> after the block
  of the lock has ended: at no notification does the control reader hold the mutex.
\<close>

theorem notify_after_unlock:
  "(\<forall>m\<in>set (notifies (session wp es)). m \<noteq> Some RCS)
   \<and> (\<forall>iw. rcs (session wp es) = RAdd iw \<longrightarrow> windowMutex (session wp es) = Some RCS)
   \<and> (rcs (session wp es) = RNotify \<longrightarrow> windowMutex (session wp es) \<noteq> Some RCS)"
  using session_mutex_inv [of wp es] by (auto simp: mutex_inv_def)

theorem notify_after_unlock_witness:
  "rcs (session wp_demo (take 10 waiting_session)) = RAdd 12
     \<and> windowMutex (session wp_demo (take 10 waiting_session)) = Some RCS
     \<and> rcs (session wp_demo (take 12 waiting_session)) = RNotify
     \<and> windowMutex (session wp_demo (take 12 waiting_session)) = None
     \<and> notifies (session wp_demo waiting_session) = [None]"
proof -
  have e: "rcs (session wp_demo (take 10 waiting_session)) = RAdd 12
     \<and> rcs (session wp_demo (take 12 waiting_session)) = RNotify
     \<and> windowMutex (session wp_demo (take 12 waiting_session)) = None
     \<and> notifies (session wp_demo waiting_session) = [None]"
    by code_simp
  from notify_after_unlock [of wp_demo "take 10 waiting_session"] e show ?thesis
    by simp
qed

theorem notify_counterexample:
  "rcs (session wp_demo (take 8 credited_session)) = RNotify
     \<and> windowMutex (session wp_demo (take 8 credited_session)) = None
     \<and> notifies (session wp_demo (take 8 credited_session)) = []
     \<and> notifies (session wp_demo (take 9 credited_session)) = [None]"
  by code_simp

end
